theory Spec2Isabelle
  imports Main "HOL-Library.Sublist"
begin

text \<open>
  A shallow embedding of two parts of markdown-transform: the template compiler of
  markdown-template (\<open>coreparsers.js\<close>, \<open>FromTemplate.js\<close>), which turns a template
  grammar into a Parsimmon parser, and the visitor of markdown-pdf
  (\<open>ToPdfMakeVisitor.js\<close>), which turns a CiceroMark tree into a pdfmake object.
  JavaScript strings are modelled as lists of 8-bit characters.
\<close>

section \<open>JavaScript values and strings\<close>

text \<open>
  The values built by the two packages are plain JavaScript values: strings, booleans,
  numbers, arrays and objects. An object is its list of own properties in insertion
  order. \<open>Num\<close> is an integer literal of the source (the margins \<open>[0,5]\<close>);
  \<open>NumberOf s\<close> stands for the value of the call \<open>Number(s)\<close>, whose conversion to
  an IEEE double is not computed here.
\<close>

datatype jsval =
    Undefined
  | Str string
  | Bool bool
  | Num int
  | NumberOf string
  | Arr "jsval list"
  | Obj "(string \<times> jsval) list"

datatype error = Error string | TypeError string

text \<open>\<open>obj.key\<close>: the value of an own property, \<open>undefined\<close> when there is none.\<close>

fun lookupProp :: "(string \<times> jsval) list \<Rightarrow> string \<Rightarrow> jsval" where
  "lookupProp [] k = Undefined"
| "lookupProp (p # ps) k = (if fst p = k then snd p else lookupProp ps k)"

fun getProp :: "jsval \<Rightarrow> string \<Rightarrow> jsval" where
  "getProp (Obj ps) k = lookupProp ps k"
| "getProp v k = Undefined"

text \<open>\<open>obj[key] = v\<close>: an existing property keeps its place, a new one is appended.\<close>

fun assignProp :: "(string \<times> jsval) list \<Rightarrow> string \<Rightarrow> jsval \<Rightarrow> (string \<times> jsval) list" where
  "assignProp [] k v = [(k, v)]"
| "assignProp (p # ps) k v = (if fst p = k then (k, v) # ps else p # assignProp ps k v)"

fun setProp :: "jsval \<Rightarrow> string \<Rightarrow> jsval \<Rightarrow> jsval" where
  "setProp (Obj ps) k v = Obj (assignProp ps k v)"
| "setProp u k v = u"

text \<open>Decimal rendering of an integer literal.\<close>

definition digitChar :: "nat \<Rightarrow> char" where
  "digitChar d = ''0123456789'' ! d"

function showNat :: "nat \<Rightarrow> string" where
  "showNat n = (if n < 10 then [digitChar n] else showNat (n div 10) @ [digitChar (n mod 10)])"
  by pat_completeness auto
termination
  by (relation "measure id") auto

definition showInt :: "int \<Rightarrow> string" where
  "showInt i = (if i < 0 then CHR ''-'' # showNat (nat (- i)) else showNat (nat i))"

fun joinWith :: "string \<Rightarrow> string list \<Rightarrow> string" where
  "joinWith sep [] = []"
| "joinWith sep [x] = x"
| "joinWith sep (x # y # ys) = x @ sep @ joinWith sep (y # ys)"

text \<open>
  The string conversion that a template literal and a computed property name apply.
  It is exact on strings, \<open>undefined\<close>, booleans, integer literals, objects and arrays
  of these. For \<open>NumberOf s\<close> it answers \<open>s\<close>, which is the rendering of the double
  only when \<open>s\<close> is the canonical decimal of a safe integer; the statements below that
  read a property name take the name to be a string.
\<close>

fun jsString :: "jsval \<Rightarrow> string" where
  "jsString Undefined = ''undefined''"
| "jsString (Str s) = s"
| "jsString (Bool b) = (if b then ''true'' else ''false'')"
| "jsString (Num i) = showInt i"
| "jsString (NumberOf s) = s"
| "jsString (Arr xs) =
     joinWith '','' (map (\<lambda>x. if x = Undefined then [] else jsString x) xs)"
| "jsString (Obj ps) = ''[object Object]''"

text \<open>
  \<open>String.prototype.substring(start, end)\<close>: both indices are clamped to
  \<open>[0, length]\<close> and swapped when \<open>start > end\<close>.
\<close>

definition substring :: "string \<Rightarrow> int \<Rightarrow> int \<Rightarrow> string" where
  "substring s start end' =
     (let len = int (length s);
          a = min (max start 0) len;
          b = min (max end' 0) len;
          from = min a b;
          to = max a b
      in take (nat (to - from)) (drop (nat from) s))"

section \<open>Parser runtime (the Parsimmon combinators used by coreparsers.js)\<close>

text \<open>
  A parser consumes a prefix of the input and yields a value and the remaining input,
  or fails (\<open>None\<close>). \<open>parse\<close> is Parsimmon's \<open>parser.parse(input)\<close>, which runs
  the parser followed by end-of-input.
\<close>

type_synonym 'a parser = "string \<Rightarrow> ('a \<times> string) option"

datatype parse_error = ParseError

definition parse :: "'a parser \<Rightarrow> string \<Rightarrow> parse_error + 'a" where
  "parse p input =
     (case p input of
        None \<Rightarrow> Inl ParseError
      | Some (v, rest) \<Rightarrow> (if rest = [] then Inr v else Inl ParseError))"

definition P_string :: "string \<Rightarrow> string parser" where
  "P_string str input =
     (if take (length str) input = str then Some (str, drop (length str) input) else None)"

definition P_map :: "('a \<Rightarrow> 'b) \<Rightarrow> 'a parser \<Rightarrow> 'b parser" where
  "P_map f p input = (case p input of None \<Rightarrow> None | Some (v, rest) \<Rightarrow> Some (f v, rest))"

text \<open>\<open>P.alt\<close>: the alternatives in order, committing to the first that succeeds.\<close>

fun P_alt :: "'a parser list \<Rightarrow> 'a parser" where
  "P_alt [] input = None"
| "P_alt (p # ps) input = (case p input of None \<Rightarrow> P_alt ps input | Some r \<Rightarrow> Some r)"

text \<open>\<open>P.seq\<close>: all parsers one after the other; the value is the array of results.\<close>

fun P_seq :: "'a parser list \<Rightarrow> 'a list parser" where
  "P_seq [] input = Some ([], input)"
| "P_seq (p # ps) input =
     (case p input of
        None \<Rightarrow> None
      | Some (v, rest) \<Rightarrow>
          (case P_seq ps rest of None \<Rightarrow> None | Some (vs, rest') \<Rightarrow> Some (v # vs, rest')))"

text \<open>
  \<open>inner.wrap(leftParser, rightParser)\<close>: the three in sequence, keeping the middle
  result.
\<close>

definition P_wrap :: "'b parser \<Rightarrow> 'a parser \<Rightarrow> 'c parser \<Rightarrow> 'a parser" where
  "P_wrap leftParser inner rightParser input =
     (case leftParser input of
        None \<Rightarrow> None
      | Some (l, r1) \<Rightarrow>
          (case inner r1 of
             None \<Rightarrow> None
           | Some (m, r2) \<Rightarrow>
               (case rightParser r2 of None \<Rightarrow> None | Some (r, r3) \<Rightarrow> Some (m, r3))))"

subsection \<open>The regular expressions of coreparsers.js\<close>

text \<open>
  \<open>P.regexp(re)\<close> matches \<open>re\<close> anchored at the current position, with the
  greedy, backtracking reading of JavaScript. Each expression of the file is written
  out as the function computing that match; it returns the matched text and the rest.
\<close>

definition isDigit :: "char \<Rightarrow> bool" where
  "isDigit c = (c \<in> set ''0123456789'')"

text \<open>The characters the dot of a regular expression refuses (no \<open>s\<close> flag).\<close>

definition isLineTerminator :: "char \<Rightarrow> bool" where
  "isLineTerminator c = (c = CHR 0x0A \<or> c = CHR 0x0D)"

text \<open>\<open>[0-9]+\<close>\<close>

definition re_digits :: "string \<Rightarrow> (string \<times> string) option" where
  "re_digits input =
     (if takeWhile isDigit input = [] then None
      else Some (takeWhile isDigit input, dropWhile isDigit input))"

text \<open>\<open>"[^"]*"\<close>\<close>

definition re_stringLiteral :: "string \<Rightarrow> (string \<times> string) option" where
  "re_stringLiteral input =
     (case input of
        [] \<Rightarrow> None
      | c # cs \<Rightarrow>
          (if c \<noteq> CHR 0x22 then None
           else (case dropWhile (\<lambda>x. x \<noteq> CHR 0x22) cs of
                   [] \<Rightarrow> None
                 | q # rest \<Rightarrow>
                     Some (CHR 0x22 # takeWhile (\<lambda>x. x \<noteq> CHR 0x22) cs @ [CHR 0x22], rest))))"

text \<open>
  \<open>(.[0-9]+)?\<close>: any one character that is not a line terminator, then digits; the
  group is skipped when that does not match.
\<close>

definition re_optFraction :: "string \<Rightarrow> string \<times> string" where
  "re_optFraction input =
     (case input of
        [] \<Rightarrow> ([], input)
      | c # cs \<Rightarrow>
          (if isLineTerminator c then ([], input)
           else (case re_digits cs of
                   None \<Rightarrow> ([], input)
                 | Some (ds, rest) \<Rightarrow> (c # ds, rest))))"

text \<open>\<open>(\+|-)?\<close>\<close>

definition re_optSign :: "string \<Rightarrow> string \<times> string" where
  "re_optSign input =
     (case input of
        [] \<Rightarrow> ([], input)
      | c # cs \<Rightarrow> (if c = CHR ''+'' \<or> c = CHR ''-'' then ([c], cs) else ([], input)))"

text \<open>\<open>(e(\+|-)?[0-9]+)?\<close>\<close>

definition re_optExponent :: "string \<Rightarrow> string \<times> string" where
  "re_optExponent input =
     (case input of
        [] \<Rightarrow> ([], input)
      | c # cs \<Rightarrow>
          (if c \<noteq> CHR ''e'' then ([], input)
           else (case re_digits (snd (re_optSign cs)) of
                   None \<Rightarrow> ([], input)
                 | Some (ds, rest) \<Rightarrow> (c # fst (re_optSign cs) @ ds, rest))))"

text \<open>\<open>[0-9]+(.[0-9]+)?(e(\+|-)?[0-9]+)?\<close>\<close>

definition re_double :: "string \<Rightarrow> (string \<times> string) option" where
  "re_double input =
     (case re_digits input of
        None \<Rightarrow> None
      | Some (ds, r1) \<Rightarrow>
          Some (ds @ fst (re_optFraction r1) @ fst (re_optExponent (snd (re_optFraction r1))),
                snd (re_optExponent (snd (re_optFraction r1)))))"

section \<open>Template grammar (markdown-template)\<close>

text \<open>
  A node of the template grammar, one constructor for each \<open>$class\<close> that
  \<open>parserOfTemplate\<close> switches on (the prefix
  \<open>org.accordproject.ciceromark.template.\<close> is left out) and \<open>OtherClass\<close> for any
  other \<open>$class\<close> string. \<open>enums\<close> is the \<open>value\<close> array of an Enum variable.
\<close>

datatype ast =
    TextChunk (text_value: string)
  | Variable (name: string) (type: string) (enums: "string list")
  | ConditionalBlock (name: string) (whenTrue: string) (whenFalse: string)
  | UnorderedListBlock (name: string) (type: string) "ast list"
  | ClauseBlock (name: string) (type: string) "ast list"
  | WithBlock (name: string) (type: string) "ast list"
  | ContractBlock (name: string) (type: string) "ast list"
  | OtherClass string

subsection \<open>coreparsers.js: building the bound values\<close>

definition mkVariable :: "ast \<Rightarrow> jsval \<Rightarrow> jsval" where
  "mkVariable variable v =
     Obj [(''name'', Str (name variable)), (''type'', Str (type variable)), (''value'', v)]"

text \<open>
  One assignment \<open>result[field.name] = field.value\<close> per element of the array, after
  \<open>result.$class = variable.type\<close>. Reading a property of \<open>undefined\<close> throws in
  JavaScript; no parser of coreparsers.js yields \<open>undefined\<close>, and \<open>getProp\<close> answers
  \<open>undefined\<close> there.
\<close>

definition mkCompoundVariable :: "ast \<Rightarrow> jsval list \<Rightarrow> jsval" where
  "mkCompoundVariable variable fields =
     foldl (\<lambda>result field. setProp result (jsString (getProp field ''name'')) (getProp field ''value''))
       (Obj [(''$class'', Str (type variable))]) fields"

definition mkCond :: "ast \<Rightarrow> string \<Rightarrow> jsval" where
  "mkCond cond v =
     Obj [(''name'', Str (name cond)), (''type'', Str ''Boolean''),
          (''value'', Bool (if v = whenTrue cond then True else False))]"

definition mkClause :: "ast \<Rightarrow> jsval list \<Rightarrow> jsval" where
  "mkClause clause v = mkCompoundVariable clause v"

definition mkWrappedClause :: "ast \<Rightarrow> jsval list \<Rightarrow> jsval" where
  "mkWrappedClause clause v =
     Obj [(''name'', Str (name clause)), (''type'', Str (type clause)), (''value'', mkClause clause v)]"

definition mkContract :: "ast \<Rightarrow> jsval list \<Rightarrow> jsval" where
  "mkContract contract v = mkClause contract v"

subsection \<open>coreparsers.js: the core parsers\<close>

definition textParser :: "string \<Rightarrow> string parser" where
  "textParser t = P_string t"

definition stringLiteralParser :: "string parser" where
  "stringLiteralParser = re_stringLiteral"

definition choiceParser :: "'a parser list \<Rightarrow> 'a parser" where
  "choiceParser parsers = P_alt parsers"

definition choiceStringsParser :: "string list \<Rightarrow> string parser" where
  "choiceStringsParser values = choiceParser (map (\<lambda>x. P_string x) values)"

text \<open>The callback of \<open>seqParser\<close> drops every result that is a JavaScript string.\<close>

definition isString :: "jsval \<Rightarrow> bool" where
  "isString x = (case x of Str s \<Rightarrow> True | _ \<Rightarrow> False)"

definition seqParser :: "jsval parser list \<Rightarrow> jsval list parser" where
  "seqParser parsers = P_map (\<lambda>args. filter (\<lambda>x. \<not> isString x) args) (P_seq parsers)"

definition doubleParser :: "ast \<Rightarrow> jsval parser" where
  "doubleParser variable = P_map (\<lambda>x. mkVariable variable (NumberOf x)) re_double"

definition integerParser :: "ast \<Rightarrow> jsval parser" where
  "integerParser variable = P_map (\<lambda>x. mkVariable variable (NumberOf x)) re_digits"

definition stringParser :: "ast \<Rightarrow> jsval parser" where
  "stringParser variable =
     P_map (\<lambda>x. mkVariable variable (Str (substring x 1 (int (length x) - 1)))) stringLiteralParser"

definition enumParser :: "ast \<Rightarrow> string list \<Rightarrow> jsval parser" where
  "enumParser variable es = P_map (\<lambda>x. mkVariable variable (Str x)) (choiceStringsParser es)"

definition condParser :: "ast \<Rightarrow> jsval parser" where
  "condParser cond =
     P_map (\<lambda>x. mkCond cond x) (P_alt [P_string (whenTrue cond), P_string (whenFalse cond)])"

definition clauseParser :: "ast \<Rightarrow> jsval list parser \<Rightarrow> jsval parser" where
  "clauseParser clause content = P_map (\<lambda>x. mkClause clause x) content"

definition contractParser :: "ast \<Rightarrow> jsval list parser \<Rightarrow> jsval parser" where
  "contractParser contract content = P_map (\<lambda>x. mkContract contract x) content"

definition clauseBefore :: "string list parser" where
  "clauseBefore =
     P_seq [textParser (CHR 0x0A # ''``` <clause src=''), stringLiteralParser,
            textParser '' clauseid='', stringLiteralParser, textParser (''>'' @ [CHR 0x0A])]"

definition clauseAfter :: "string parser" where
  "clauseAfter = textParser (CHR 0x0A # ''```'' @ [CHR 0x0A])"

definition wrappedClauseParser :: "ast \<Rightarrow> jsval list parser \<Rightarrow> jsval parser" where
  "wrappedClauseParser clause content =
     P_map (\<lambda>x. mkWrappedClause clause x) (P_wrap clauseBefore content clauseAfter)"

subsection \<open>FromTemplate.js: compiling a grammar into a parser\<close>

text \<open>
  \<open>params\<close> is the mutable object handed down the recursion; \<open>contract\<close> is the
  truth value of \<open>params.contract\<close>. The compiler returns the parser together with
  the state of \<open>params\<close> after the call, or the exception thrown.
\<close>

record params =
  contract :: bool

text \<open>
  The names every object literal inherits from \<open>Object.prototype\<close>: looked up in
  \<open>parsingTable\<close> they give a truthy value that is no parser constructor.
\<close>

definition objectPrototypeNames :: "string list" where
  "objectPrototypeNames =
     [''constructor'', ''hasOwnProperty'', ''isPrototypeOf'', ''propertyIsEnumerable'',
      ''toLocaleString'', ''toString'', ''valueOf'', ''__proto__'', ''__defineGetter__'',
      ''__defineSetter__'', ''__lookupGetter__'', ''__lookupSetter__'']"

text \<open>
  \<open>dateTimeParser\<close> comes from \<open>./dateTimeParser\<close>, which is not among the sources:
  it is a parameter, assumed to build a bound value as the other variable parsers do.
\<close>

definition parsingTable :: "(ast \<Rightarrow> jsval parser) \<Rightarrow> string \<Rightarrow> (ast \<Rightarrow> jsval parser) option" where
  "parsingTable dateTimeParser t =
     (if t = ''Integer'' then Some integerParser
      else if t = ''Double'' then Some doubleParser
      else if t = ''String'' then Some stringParser
      else if t = ''DateTime'' then Some dateTimeParser
      else None)"

text \<open>
  \<open>listParser\<close> and \<open>withParser\<close> are required from \<open>./coreparsers\<close>, which
  exports neither: both names are \<open>undefined\<close> and calling them throws a TypeError,
  after the children have been compiled. A variable type that is an inherited property
  name makes the function hand back a value that is no parser; the model reports this as
  a TypeError as well. The result of the parser of a TextChunk is the matched string,
  taken into the values by \<open>Str\<close>.
\<close>

fun parserOfTemplate :: "(ast \<Rightarrow> jsval parser) \<Rightarrow> ast \<Rightarrow> params \<Rightarrow> error + (jsval parser \<times> params)"
  and mapParserOfTemplate :: "(ast \<Rightarrow> jsval parser) \<Rightarrow> ast list \<Rightarrow> params \<Rightarrow> error + (jsval parser list \<times> params)"
  where
  "parserOfTemplate dtp (TextChunk v) ps = Inr (P_map Str (textParser v), ps)"
| "parserOfTemplate dtp (Variable n t es) ps =
     (if t = ''Enum'' then Inr (enumParser (Variable n t es) es, ps)
      else (case parsingTable dtp t of
              Some parserFun \<Rightarrow> Inr (parserFun (Variable n t es), ps)
            | None \<Rightarrow>
                (if t \<in> set objectPrototypeNames then Inl (TypeError ''not a parser'')
                 else Inl (Error (''Unknown variable type '' @ t)))))"
| "parserOfTemplate dtp (ConditionalBlock n tr fa) ps = Inr (condParser (ConditionalBlock n tr fa), ps)"
| "parserOfTemplate dtp (UnorderedListBlock n t ns) ps =
     (case mapParserOfTemplate dtp ns ps of
        Inl e \<Rightarrow> Inl e
      | Inr (parsers, ps') \<Rightarrow> Inl (TypeError ''listParser is not a function''))"
| "parserOfTemplate dtp (ClauseBlock n t ns) ps =
     (case mapParserOfTemplate dtp ns ps of
        Inl e \<Rightarrow> Inl e
      | Inr (parsers, ps') \<Rightarrow>
          (if contract ps' then Inr (wrappedClauseParser (ClauseBlock n t ns) (seqParser parsers), ps')
           else Inr (clauseParser (ClauseBlock n t ns) (seqParser parsers), ps')))"
| "parserOfTemplate dtp (WithBlock n t ns) ps =
     (case mapParserOfTemplate dtp ns ps of
        Inl e \<Rightarrow> Inl e
      | Inr (parsers, ps') \<Rightarrow> Inl (TypeError ''withParser is not a function''))"
| "parserOfTemplate dtp (ContractBlock n t ns) ps =
     (case mapParserOfTemplate dtp ns (ps\<lparr>contract := True\<rparr>) of
        Inl e \<Rightarrow> Inl e
      | Inr (parsers, ps') \<Rightarrow> Inr (contractParser (ContractBlock n t ns) (seqParser parsers), ps'))"
| "parserOfTemplate dtp (OtherClass c) ps = Inl (Error (''Unknown template ast $class '' @ c))"
| "mapParserOfTemplate dtp [] ps = Inr ([], ps)"
| "mapParserOfTemplate dtp (x # xs) ps =
     (case parserOfTemplate dtp x ps of
        Inl e \<Rightarrow> Inl e
      | Inr (p, ps') \<Rightarrow>
          (case mapParserOfTemplate dtp xs ps' of
             Inl e \<Rightarrow> Inl e
           | Inr (rest, ps'') \<Rightarrow> Inr (p # rest, ps'')))"

section \<open>CiceroMark to pdfmake (markdown-pdf, ToPdfMakeVisitor.js)\<close>

text \<open>
  A node of the document tree: \<open>getType\<close> is the answer of \<open>thing.getType()\<close>,
  \<open>nodes\<close> the children (an absent \<open>nodes\<close> behaves as the empty array everywhere
  in this file) and \<open>attrs\<close> the string properties the visitor reads, \<open>None\<close>
  when the property is absent. \<open>listType\<close> is the property \<open>type\<close> of a list.
\<close>

record attrs =
  "text" :: "string option"
  level :: "string option"
  destination :: "string option"
  listType :: "string option"
  elementType :: "string option"
  identifiedBy :: "string option"
  "value" :: "string option"

datatype node = Node (getType: string) (attrs: attrs) (nodes: "node list")

definition optStr :: "string option \<Rightarrow> jsval" where
  "optStr x = (case x of None \<Rightarrow> Undefined | Some s \<Rightarrow> Str s)"

text \<open>Truthiness of an optional string: absent and empty are falsy.\<close>

definition truthy :: "string option \<Rightarrow> bool" where
  "truthy x = (case x of None \<Rightarrow> False | Some s \<Rightarrow> s \<noteq> [])"

definition unquoteString :: "string \<Rightarrow> string" where
  "unquoteString v = substring v 1 (int (length v) - 1)"

text \<open>The traversal context; \<open>result\<close> is \<open>undefined\<close> until a visit assigns it.\<close>

record parameters =
  strong :: bool
  emph :: bool
  code :: bool
  result :: jsval

definition applyMarks :: "jsval \<Rightarrow> parameters \<Rightarrow> jsval" where
  "applyMarks leafNode ps =
     (let n1 = (if emph ps
                then setProp (setProp leafNode ''style'' (Str ''Emph'')) ''italics'' (Bool True)
                else leafNode);
          n2 = (if strong ps
                then setProp (setProp n1 ''style'' (Str ''Strong'')) ''bold'' (Bool True)
                else n1)
      in (if code ps then setProp n2 ''style'' (Str ''Code'') else n2))"

fun getText :: "node \<Rightarrow> jsval" where
  "getText (Node t f ns) =
     (if t = ''Text'' then optStr (text f)
      else (case ns of [] \<Rightarrow> Str [] | c # cs \<Rightarrow> getText c))"

definition handleFormattedText :: "node \<Rightarrow> parameters \<Rightarrow> jsval" where
  "handleFormattedText thing ps = applyMarks (Obj [(''text'', getText thing)]) ps"

definition getHeadingType :: "node \<Rightarrow> string" where
  "getHeadingType thing =
     (if level (attrs thing) = Some ''1'' then ''heading_one''
      else if level (attrs thing) = Some ''2'' then ''heading_two''
      else if level (attrs thing) = Some ''3'' then ''heading_three''
      else if level (attrs thing) = Some ''4'' then ''heading_four''
      else if level (attrs thing) = Some ''5'' then ''heading_five''
      else if level (attrs thing) = Some ''6'' then ''heading_six''
      else ''heading_one'')"

text \<open>
  \<open>visit\<close> returns the context as the call leaves it, \<open>result\<close> assigned, or the
  exception thrown. \<open>processChildren\<close> takes the array \<open>thing[fieldName]\<close>; every
  child is visited with a fresh copy of the three flags, and its result is appended to
  the output, spliced in when it is an array.
\<close>

fun visit :: "node \<Rightarrow> parameters \<Rightarrow> error + parameters"
  and processChildren :: "node list \<Rightarrow> parameters \<Rightarrow> error + jsval list"
  where
  "visit (Node t f ns) ps =
     (if t = ''Emph'' then
        (case processChildren ns (ps\<lparr>emph := True\<rparr>) of
           Inl e \<Rightarrow> Inl e
         | Inr ch \<Rightarrow>
             Inr (ps\<lparr>emph := True,
                    result := Obj [(''style'', Str t), (''text'', Arr ch), (''italics'', Bool True)]\<rparr>))
      else if t = ''Strong'' then
        (case processChildren ns (ps\<lparr>strong := True\<rparr>) of
           Inl e \<Rightarrow> Inl e
         | Inr ch \<Rightarrow>
             Inr (ps\<lparr>strong := True,
                    result := Obj [(''style'', Str t), (''text'', Arr ch), (''bold'', Bool True)]\<rparr>))
      else if t = ''BlockQuote'' \<or> t = ''Item'' \<or> t = ''Clause'' then
        (case processChildren ns ps of
           Inl e \<Rightarrow> Inl e
         | Inr ch \<Rightarrow> Inr (ps\<lparr>result := Obj [(''style'', Str t), (''text'', Arr ch)]\<rparr>))
      else if t = ''Link'' then
        (case ns of
           [] \<Rightarrow> Inl (TypeError ''Cannot read properties of undefined'')
         | c # cs \<Rightarrow>
             Inr (ps\<lparr>result := Obj [(''style'', Str t), (''text'', optStr (text (attrs c))),
                                    (''link'', optStr (destination f))]\<rparr>))
      else if t = ''Image'' then
        Inr (ps\<lparr>result := Obj [(''style'', Str t), (''image'', optStr (destination f))]\<rparr>)
      else if t = ''Paragraph'' then
        (case processChildren ns ps of
           Inl e \<Rightarrow> Inl e
         | Inr ch \<Rightarrow>
             (if (case ch of [] \<Rightarrow> False | c # cs \<Rightarrow> getProp c ''style'' = Str ''Image'')
              then Inr (ps\<lparr>result := Obj [(''style'', Str t), (''stack'', Arr ch)]\<rparr>)
              else Inr (ps\<lparr>result := Obj [(''style'', Str t), (''text'', Arr ch),
                                            (''margin'', Arr [Num 0, Num 5])]\<rparr>)))
      else if t = ''EnumVariable'' \<or> t = ''FormattedVariable'' \<or> t = ''Formula'' \<or> t = ''Variable'' then
        (if elementType f = Some ''String'' \<or> truthy (identifiedBy f)
         then (case value f of
                 None \<Rightarrow> Inl (TypeError ''Cannot read properties of undefined'')
               | Some v \<Rightarrow> Inr (ps\<lparr>result := Obj [(''style'', Str t), (''text'', Str (unquoteString v))]\<rparr>))
         else Inr (ps\<lparr>result := Obj [(''style'', Str t), (''text'', optStr (value f))]\<rparr>))
      else if t = ''Conditional'' then
        (case ns of
           [] \<Rightarrow> Inl (TypeError ''Cannot read properties of undefined'')
         | c # cs \<Rightarrow> Inr (ps\<lparr>result := Obj [(''style'', Str t), (''text'', optStr (text (attrs c)))]\<rparr>))
      else if t = ''HtmlInline'' \<or> t = ''HtmlBlock'' \<or> t = ''CodeBlock'' \<or> t = ''Code'' then
        Inr (ps\<lparr>result := Obj [(''style'', Str t), (''text'', optStr (text f))]\<rparr>)
      else if t = ''Text'' then
        Inr (ps\<lparr>result := handleFormattedText (Node t f ns) ps\<rparr>)
      else if t = ''Heading'' then
        (case processChildren ns ps of
           Inl e \<Rightarrow> Inl e
         | Inr ch \<Rightarrow>
             (case ch of
                [] \<Rightarrow> Inl (TypeError ''Cannot read properties of undefined'')
              | c # cs \<Rightarrow>
                  Inr (ps\<lparr>result :=
                         Obj [(''style'', Str (getHeadingType (Node t f ns))),
                              (''text'', Str (CHR 0x0A # jsString (getProp c ''text'') @ [CHR 0x0A])),
                              (''tocItem'', Bool True)]\<rparr>)))
      else if t = ''ThematicBreak'' then
        Inr (ps\<lparr>result := Obj [(''style'', Str t), (''text'', Str []), (''pageBreak'', Str ''after'')]\<rparr>)
      else if t = ''Linebreak'' then
        Inr (ps\<lparr>result := Obj [(''style'', Str t), (''text'', Str [CHR 0x0A])]\<rparr>)
      else if t = ''Softbreak'' then
        Inr (ps\<lparr>result := Obj [(''style'', Str t), (''text'', Str '' '')]\<rparr>)
      else if t = ''ListBlock'' \<or> t = ''List'' then
        (case processChildren ns ps of
           Inl e \<Rightarrow> Inl e
         | Inr ch \<Rightarrow>
             Inr (ps\<lparr>result := Obj [(''style'', Str t),
                                    (if listType f = Some ''ordered'' then ''ol'' else ''ul'', Arr ch)]\<rparr>))
      else if t = ''Document'' then
        (case processChildren ns ps of
           Inl e \<Rightarrow> Inl e
         | Inr ch \<Rightarrow> Inr (ps\<lparr>result := Obj [(''style'', Str t), (''content'', Arr ch)]\<rparr>))
      else Inl (Error (''Unhandled type '' @ t)))"
| "processChildren [] ps = Inr []"
| "processChildren (n # ns) ps =
     (case visit n \<lparr>strong = strong ps, emph = emph ps, code = code ps, result = Undefined\<rparr> of
        Inl e \<Rightarrow> Inl e
      | Inr newParameters \<Rightarrow>
          (case processChildren ns ps of
             Inl e \<Rightarrow> Inl e
           | Inr rest \<Rightarrow>
               Inr ((case result newParameters of Arr xs \<Rightarrow> xs | r \<Rightarrow> [r]) @ rest)))"

definition processChildNodes :: "node \<Rightarrow> parameters \<Rightarrow> error + jsval list" where
  "processChildNodes thing ps = processChildren (nodes thing) ps"

section \<open>Notions used in the statements\<close>

text \<open>The element types with a case of their own in the switch of \<open>visit\<close>.\<close>

definition handledTypes :: "string list" where
  "handledTypes =
     [''Emph'', ''Strong'', ''BlockQuote'', ''Item'', ''Clause'', ''Link'', ''Image'', ''Paragraph'',
      ''EnumVariable'', ''FormattedVariable'', ''Formula'', ''Variable'', ''Conditional'',
      ''HtmlInline'', ''HtmlBlock'', ''CodeBlock'', ''Code'', ''Text'', ''Heading'',
      ''ThematicBreak'', ''Linebreak'', ''Softbreak'', ''ListBlock'', ''List'', ''Document'']"

definition variableFamily :: "string \<Rightarrow> bool" where
  "variableFamily t = (t \<in> set [''EnumVariable'', ''FormattedVariable'', ''Formula'', ''Variable''])"

text \<open>A node none of whose string properties is present.\<close>

definition noAttrs :: attrs where
  "noAttrs = \<lparr>text = None, level = None, destination = None, listType = None,
              elementType = None, identifiedBy = None, value = None\<rparr>"

text \<open>The object \<open>newParameters\<close> that \<open>processChildren\<close> builds for a child.\<close>

definition childCopy :: "parameters \<Rightarrow> parameters" where
  "childCopy ps = \<lparr>strong = strong ps, emph = emph ps, code = code ps, result = Undefined\<rparr>"

text \<open>The element types whose case in \<open>visit\<close> processes the children.\<close>

definition recursingTypes :: "string list" where
  "recursingTypes =
     [''Emph'', ''Strong'', ''BlockQuote'', ''Item'', ''Clause'', ''Paragraph'', ''Heading'',
      ''ListBlock'', ''List'', ''Document'']"

text \<open>
  The traversal reaches a node without a case: the node itself, or a node reached
  through children of nodes whose case processes them.
\<close>

fun reachesUnhandled :: "node \<Rightarrow> bool" where
  "reachesUnhandled (Node t f ns) =
     (t \<notin> set handledTypes \<or> (t \<in> set recursingTypes \<and> (\<exists>c\<in>set ns. reachesUnhandled c)))"

text \<open>The context with which the case of an element type processes the children.\<close>

definition childParameters :: "string \<Rightarrow> parameters \<Rightarrow> parameters" where
  "childParameters t ps =
     (if t = ''Emph'' then ps\<lparr>emph := True\<rparr> else if t = ''Strong'' then ps\<lparr>strong := True\<rparr> else ps)"







text \<open>A node, its first child, the first child of that one, and so on.\<close>

fun firstPath :: "node \<Rightarrow> node list" where
  "firstPath (Node t f ns) = Node t f ns # (case ns of [] \<Rightarrow> [] | c # cs \<Rightarrow> firstPath c)"

section \<open>Parser runtime: basic facts\<close>

declare visit.simps [simp del]

lemma take_length_prefix: "(take (length s) inp = s) = prefix s inp"
proof
  assume "take (length s) inp = s"
  then have "inp = s @ drop (length s) inp"
    by (metis append_take_drop_id)
  then show "prefix s inp"
    by (metis prefixI)
next
  assume "prefix s inp"
  then show "take (length s) inp = s"
    by (auto simp: prefix_def)
qed

lemma P_string_Some:
  "P_string s inp = Some r \<longleftrightarrow> (prefix s inp \<and> r = (s, drop (length s) inp))"
  by (auto simp: P_string_def take_length_prefix)

lemma P_string_None: "P_string s inp = None \<longleftrightarrow> \<not> prefix s inp"
  by (auto simp: P_string_def take_length_prefix)

lemma P_string_append: "P_string s (s @ rest) = Some (s, rest)"
  by (simp add: P_string_def)



section \<open>Conditional blocks\<close>

text \<open>
  C2 (as amended). The parser of a ConditionalBlock, applied to a whole input, has three
  outcomes: the input equal to \<open>whenTrue\<close> binds the boolean true; the input equal to
  \<open>whenFalse\<close> binds false, provided \<open>whenTrue\<close> is not a prefix of \<open>whenFalse\<close>;
  every other input is a ParseError. The alternation commits to \<open>whenTrue\<close> as soon
  as the input starts with it, so a \<open>whenFalse\<close> that extends \<open>whenTrue\<close> is never
  matched.
\<close>

theorem condParser_outcomes:
  "parse (condParser (ConditionalBlock n tr fa)) inp =
     (if inp = tr then Inr (Obj [(''name'', Str n), (''type'', Str ''Boolean''), (''value'', Bool True)])
      else if inp = fa \<and> \<not> prefix tr fa
        then Inr (Obj [(''name'', Str n), (''type'', Str ''Boolean''), (''value'', Bool False)])
      else Inl ParseError)"
proof (cases "prefix tr inp")
  case True
  then have "P_string tr inp = Some (tr, drop (length tr) inp)"
    by (simp add: P_string_Some)
  moreover have "drop (length tr) inp = [] \<longleftrightarrow> inp = tr"
    using True by (auto simp: prefix_def)
  ultimately show ?thesis
    using True by (auto simp: parse_def condParser_def P_map_def mkCond_def)
next
  case False
  then have none: "P_string tr inp = None"
    by (simp add: P_string_None)
  from False have ne: "inp \<noteq> tr" by auto
  show ?thesis
  proof (cases "prefix fa inp")
    case True
    then have "P_string fa inp = Some (fa, drop (length fa) inp)"
      by (simp add: P_string_Some)
    moreover have "drop (length fa) inp = [] \<longleftrightarrow> inp = fa"
      using True by (auto simp: prefix_def)
    moreover have "inp = fa \<Longrightarrow> fa \<noteq> tr \<and> \<not> prefix tr fa"
      using False by auto
    ultimately show ?thesis
      using none ne by (auto simp: parse_def condParser_def P_map_def mkCond_def)
  next
    case False
    then have "P_string fa inp = None"
      by (simp add: P_string_None)
    moreover have "inp \<noteq> fa" using False by auto
    ultimately show ?thesis
      using none ne by (auto simp: parse_def condParser_def P_map_def mkCond_def)
  qed
qed

theorem condParser_outcomes_witness:
  "parse (condParser (ConditionalBlock ''c'' ''will'' ''will not'')) ''will''
     = Inr (Obj [(''name'', Str ''c''), (''type'', Str ''Boolean''), (''value'', Bool True)])
   \<and> parse (condParser (ConditionalBlock ''c'' ''will'' ''shall not'')) ''shall not''
     = Inr (Obj [(''name'', Str ''c''), (''type'', Str ''Boolean''), (''value'', Bool False)])
   \<and> parse (condParser (ConditionalBlock ''c'' ''will'' ''will not'')) ''maybe'' = Inl ParseError"
  using condParser_outcomes [of "''c''" "''will''" "''will not''" "''will''"]
    condParser_outcomes [of "''c''" "''will''" "''shall not''" "''shall not''"]
    condParser_outcomes [of "''c''" "''will''" "''will not''" "''maybe''"]
  by simp

text \<open>
  With \<open>whenTrue = "will"\<close> and \<open>whenFalse = "will not"\<close>, the input \<open>"will not"\<close>
  is a ParseError: the parser matches \<open>"will"\<close>, binds true and leaves \<open>" not"\<close>.
\<close>

theorem condParser_will_not_counterexample:
  "parse (condParser (ConditionalBlock ''c'' ''will'' ''will not'')) ''will not'' = Inl ParseError
   \<and> condParser (ConditionalBlock ''c'' ''will'' ''will not'') ''will not''
       = Some (Obj [(''name'', Str ''c''), (''type'', Str ''Boolean''), (''value'', Bool True)], '' not'')"
  by (simp add: parse_def condParser_def P_map_def mkCond_def P_string_def)

section \<open>Double variables\<close>

text \<open>
  C4. The dot of the expression in \<open>doubleParser\<close> is not escaped, so the fractional
  part starts with any character: the whole input \<open>1x5\<close> is matched and bound as
  \<open>Number("1x5")\<close>, where the claim has no match.
\<close>

theorem doubleParser_any_character:
  "parse (doubleParser v) ''1x5''
     = Inr (Obj [(''name'', Str (name v)), (''type'', Str (type v)), (''value'', NumberOf ''1x5'')])"
  by (simp add: parse_def doubleParser_def P_map_def mkVariable_def re_double_def re_digits_def
      re_optFraction_def re_optExponent_def re_optSign_def isDigit_def isLineTerminator_def)

section \<open>Headings and text extraction\<close>

text \<open>
  C9. The style name of a heading: levels \<open>"1"\<close> to \<open>"6"\<close> give \<open>heading_one\<close>
  to \<open>heading_six\<close>, every other level gives \<open>heading_one\<close>.
\<close>

theorem getHeadingType_mapping:
  "(level (attrs h) = Some ''1'' \<longrightarrow> getHeadingType h = ''heading_one'')
 \<and> (level (attrs h) = Some ''2'' \<longrightarrow> getHeadingType h = ''heading_two'')
 \<and> (level (attrs h) = Some ''3'' \<longrightarrow> getHeadingType h = ''heading_three'')
 \<and> (level (attrs h) = Some ''4'' \<longrightarrow> getHeadingType h = ''heading_four'')
 \<and> (level (attrs h) = Some ''5'' \<longrightarrow> getHeadingType h = ''heading_five'')
 \<and> (level (attrs h) = Some ''6'' \<longrightarrow> getHeadingType h = ''heading_six'')
 \<and> (level (attrs h) \<notin> {Some ''1'', Some ''2'', Some ''3'', Some ''4'', Some ''5'', Some ''6''}
       \<longrightarrow> getHeadingType h = ''heading_one'')"
  by (simp add: getHeadingType_def)

theorem getHeadingType_mapping_witness:
  "getHeadingType (Node ''Heading'' (noAttrs\<lparr>level := Some ''3''\<rparr>) []) = ''heading_three''
 \<and> getHeadingType (Node ''Heading'' (noAttrs\<lparr>level := Some ''9''\<rparr>) []) = ''heading_one''"
  using getHeadingType_mapping [of "Node ''Heading'' (noAttrs\<lparr>level := Some ''3''\<rparr>) []"]
    getHeadingType_mapping [of "Node ''Heading'' (noAttrs\<lparr>level := Some ''9''\<rparr>) []"]
  by simp

lemma getText_firstPath:
  "getText n = (case find (\<lambda>m. getType m = ''Text'') (firstPath n) of
                  Some m \<Rightarrow> optStr (text (attrs m)) | None \<Rightarrow> Str [])"
proof (induction n)
  case (Node t f ns)
  show ?case
  proof (cases ns)
    case Nil
    then show ?thesis by simp
  next
    case (Cons c cs)
    with Node.IH [of c] show ?thesis by simp
  qed
qed

text \<open>
  C8. \<open>getText\<close> answers the text of a Text node; on any other node it answers the
  empty string when there is no child and otherwise what it answers on the first child,
  whatever the other children are. Its answer is the text of the first Text node on the
  path of first children, or the empty string when that path has none: text of two
  children is never joined.
\<close>

theorem getText_first_child_only:
  "(getType n = ''Text'' \<longrightarrow> getText n = optStr (text (attrs n)))
 \<and> (getType n \<noteq> ''Text'' \<and> nodes n = [] \<longrightarrow> getText n = Str [])
 \<and> (getType n \<noteq> ''Text'' \<and> nodes n = c # cs \<longrightarrow>
       getText n = getText c \<and> (\<forall>cs'. getText (Node (getType n) (attrs n) (c # cs')) = getText n))
 \<and> getText n = (case find (\<lambda>m. getType m = ''Text'') (firstPath n) of
                    Some m \<Rightarrow> optStr (text (attrs m)) | None \<Rightarrow> Str [])"
proof -
  have "(getType n = ''Text'' \<longrightarrow> getText n = optStr (text (attrs n)))
     \<and> (getType n \<noteq> ''Text'' \<and> nodes n = [] \<longrightarrow> getText n = Str [])
     \<and> (getType n \<noteq> ''Text'' \<and> nodes n = c # cs \<longrightarrow>
           getText n = getText c \<and> (\<forall>cs'. getText (Node (getType n) (attrs n) (c # cs')) = getText n))"
    by (cases n) simp
  with getText_firstPath [of n] show ?thesis by blast
qed

theorem getText_first_child_only_witness:
  "getText (Node ''Heading'' noAttrs
     [Node ''Emph'' noAttrs [Node ''Text'' (noAttrs\<lparr>text := Some ''a''\<rparr>) []],
      Node ''Text'' (noAttrs\<lparr>text := Some ''b''\<rparr>) []]) = Str ''a''"
  using getText_first_child_only [of "Node ''Heading'' noAttrs
     [Node ''Emph'' noAttrs [Node ''Text'' (noAttrs\<lparr>text := Some ''a''\<rparr>) []],
      Node ''Text'' (noAttrs\<lparr>text := Some ''b''\<rparr>) []]"
      "Node ''Emph'' noAttrs [Node ''Text'' (noAttrs\<lparr>text := Some ''a''\<rparr>) []]"
      "[Node ''Text'' (noAttrs\<lparr>text := Some ''b''\<rparr>) []]"]
  by (simp add: optStr_def)

section \<open>The variable family\<close>

lemma substring_strip:
  "substring v 1 (int (length v) - 1) = (if length v \<le> 1 then v else butlast (tl v))"
proof (cases v)
  case Nil
  then show ?thesis by (simp add: substring_def)
next
  case (Cons a w)
  show ?thesis
  proof (cases w)
    case Nil
    with Cons show ?thesis by (simp add: substring_def)
  next
    case (Cons b u)
    with \<open>v = a # w\<close> show ?thesis
      by (simp add: substring_def butlast_conv_take nat_add_distrib)
  qed
qed

lemma unquoteString_strip: "unquoteString v = (if length v \<le> 1 then v else butlast (tl v))"
  unfolding unquoteString_def by (rule substring_strip)

lemma unquoteString_quoted: "unquoteString (q # s @ [q']) = s"
  by (simp add: unquoteString_strip butlast_append)

lemma visit_variableFamily:
  assumes "variableFamily t"
  shows "visit (Node t f ns) ps =
        (if elementType f = Some ''String'' \<or> truthy (identifiedBy f)
         then (case value f of
                 None \<Rightarrow> Inl (TypeError ''Cannot read properties of undefined'')
               | Some v \<Rightarrow> Inr (ps\<lparr>result := Obj [(''style'', Str t), (''text'', Str (unquoteString v))]\<rparr>))
         else Inr (ps\<lparr>result := Obj [(''style'', Str t), (''text'', optStr (value f))]\<rparr>))"
proof -
  from assms have "t = ''EnumVariable'' \<or> t = ''FormattedVariable'' \<or> t = ''Formula'' \<or> t = ''Variable''"
    by (simp add: variableFamily_def)
  then show ?thesis
    by (elim disjE; hypsubst) (simp_all add: visit.simps)
qed

text \<open>
  C3 (as amended). A node of the variable family with a stored value emits that value,
  except when its element type is \<open>"String"\<close> or it is identifiedBy: then it emits the
  value without its first and its last character, whatever they are (a value of fewer
  than two characters is emitted as it is). For a value wrapped in quote characters this
  is the text between the quotes.
\<close>

theorem variable_text:
  assumes "variableFamily t" and "value f = Some v"
  shows "visit (Node t f ns) ps =
           Inr (ps\<lparr>result := Obj [(''style'', Str t),
              (''text'', Str (if elementType f = Some ''String'' \<or> truthy (identifiedBy f)
                                then (if length v \<le> 1 then v else butlast (tl v))
                                else v))]\<rparr>)
       \<and> (\<forall>q q' s. v = q # s @ [q'] \<and> (elementType f = Some ''String'' \<or> truthy (identifiedBy f)) \<longrightarrow>
             visit (Node t f ns) ps = Inr (ps\<lparr>result := Obj [(''style'', Str t), (''text'', Str s)]\<rparr>))"
  using assms
  by (auto simp add: visit_variableFamily unquoteString_quoted unquoteString_strip optStr_def
      simp del: butlast.simps)

theorem variable_text_witness:
  "visit (Node ''Variable'' (noAttrs\<lparr>elementType := Some ''String'', value := Some [CHR 0x22, CHR ''h'', CHR ''i'', CHR 0x22]\<rparr>) [])
      \<lparr>strong = False, emph = False, code = False, result = Undefined\<rparr>
    = Inr \<lparr>strong = False, emph = False, code = False,
           result = Obj [(''style'', Str ''Variable''), (''text'', Str ''hi'')]\<rparr>
  \<and> visit (Node ''Variable'' (noAttrs\<lparr>elementType := Some ''Double'', value := Some ''3.5''\<rparr>) [])
      \<lparr>strong = False, emph = False, code = False, result = Undefined\<rparr>
    = Inr \<lparr>strong = False, emph = False, code = False,
           result = Obj [(''style'', Str ''Variable''), (''text'', Str ''3.5'')]\<rparr>"
proof -
  have fam: "variableFamily ''Variable''"
    by (simp add: variableFamily_def)
  have v1: "value (noAttrs\<lparr>elementType := Some ''String'', value := Some [CHR 0x22, CHR ''h'', CHR ''i'', CHR 0x22]\<rparr>)
              = Some [CHR 0x22, CHR ''h'', CHR ''i'', CHR 0x22]"
    by simp
  have v2: "value (noAttrs\<lparr>elementType := Some ''Double'', value := Some ''3.5''\<rparr>) = Some ''3.5''"
    by simp
  show ?thesis
    using variable_text [OF fam v1, of "[]" "\<lparr>strong = False, emph = False, code = False, result = Undefined\<rparr>"]
      variable_text [OF fam v2, of "[]" "\<lparr>strong = False, emph = False, code = False, result = Undefined\<rparr>"]
    by (simp add: noAttrs_def truthy_def)
qed

text \<open>
  A String variable whose stored value \<open>abc\<close> is not wrapped in quotes is not emitted
  unchanged: the visitor emits \<open>b\<close>.
\<close>

theorem variable_text_counterexample:
  "visit (Node ''Variable'' (noAttrs\<lparr>elementType := Some ''String'', value := Some ''abc''\<rparr>) [])
      \<lparr>strong = False, emph = False, code = False, result = Undefined\<rparr>
    = Inr \<lparr>strong = False, emph = False, code = False,
           result = Obj [(''style'', Str ''Variable''), (''text'', Str ''b'')]\<rparr>"
  by (simp add: visit.simps noAttrs_def unquoteString_def substring_def)

section \<open>Sequences and text chunks\<close>

lemma seqParser_no_strings:
  "seqParser parsers inp = Some (vs, rest) \<Longrightarrow> \<forall>v\<in>set vs. \<not> isString v"
  by (auto simp: seqParser_def P_map_def split: option.splits)

lemma seqParser_text_head:
  "seqParser (P_map Str (textParser t) # parsers) (t @ inp) = seqParser parsers inp"
  by (simp add: seqParser_def P_map_def textParser_def P_string_append isString_def
      split: option.splits)

text \<open>
  C5. The children \<open>[TextChunk("Seller: "), Variable(seller, String)]\<close> compile to a
  literal parser and a String parser; their sequence parses \<open>Seller: "Steve"\<close> into the
  single bound record of the variable, whose value is the text between the quotes. The
  result of a TextChunk is a JavaScript string, a sequence that starts with a TextChunk
  yields what the rest of the sequence yields, and no result of \<open>seqParser\<close> holds a
  string.
\<close>

theorem seqParser_drops_text:
  "mapParserOfTemplate dtp [TextChunk ''Seller: '', Variable ''seller'' ''String'' []] ps
     = Inr ([P_map Str (textParser ''Seller: ''), stringParser (Variable ''seller'' ''String'' [])], ps)
 \<and> parse (seqParser [P_map Str (textParser ''Seller: ''), stringParser (Variable ''seller'' ''String'' [])])
       (''Seller: '' @ [CHR 0x22] @ ''Steve'' @ [CHR 0x22])
     = Inr [Obj [(''name'', Str ''seller''), (''type'', Str ''String''), (''value'', Str ''Steve'')]]
 \<and> parserOfTemplate dtp (TextChunk t) ps = Inr (P_map Str (textParser t), ps)
 \<and> (P_map Str (textParser t) inp = Some (v, rest) \<longrightarrow> isString v)
 \<and> seqParser (P_map Str (textParser t) # parsers) (t @ inp) = seqParser parsers inp
 \<and> (seqParser parsers inp = Some (vs, rest) \<longrightarrow> (\<forall>v\<in>set vs. \<not> isString v))"
proof -
  have 1: "mapParserOfTemplate dtp [TextChunk ''Seller: '', Variable ''seller'' ''String'' []] ps
     = Inr ([P_map Str (textParser ''Seller: ''), stringParser (Variable ''seller'' ''String'' [])], ps)"
    by (simp add: parsingTable_def)
  have 2: "parse (seqParser [P_map Str (textParser ''Seller: ''), stringParser (Variable ''seller'' ''String'' [])])
       (''Seller: '' @ [CHR 0x22] @ ''Steve'' @ [CHR 0x22])
     = Inr [Obj [(''name'', Str ''seller''), (''type'', Str ''String''), (''value'', Str ''Steve'')]]"
    by (simp add: parse_def seqParser_def P_map_def textParser_def P_string_def stringParser_def
        stringLiteralParser_def re_stringLiteral_def mkVariable_def substring_def isString_def)
  have 3: "P_map Str (textParser t) inp = Some (v, rest) \<longrightarrow> isString v"
    by (auto simp: P_map_def isString_def split: option.splits)
  show ?thesis
    using 1 2 3 seqParser_text_head seqParser_no_strings by auto
qed

theorem seqParser_drops_text_witness:
  "seqParser [P_map Str (textParser ''Seller: ''), stringParser (Variable ''seller'' ''String'' [])]
       (''Seller: '' @ [CHR 0x22] @ ''Steve'' @ [CHR 0x22])
     = Some ([Obj [(''name'', Str ''seller''), (''type'', Str ''String''), (''value'', Str ''Steve'')]], [])
 \<and> \<not> isString (Obj [(''name'', Str ''seller''), (''type'', Str ''String''), (''value'', Str ''Steve'')])
 \<and> P_map Str (textParser ''Seller: '') ''Seller: x'' = Some (Str ''Seller: '', ''x'')
 \<and> isString (Str ''Seller: '')"
proof -
  have run: "seqParser [P_map Str (textParser ''Seller: ''), stringParser (Variable ''seller'' ''String'' [])]
       (''Seller: '' @ [CHR 0x22] @ ''Steve'' @ [CHR 0x22])
     = Some ([Obj [(''name'', Str ''seller''), (''type'', Str ''String''), (''value'', Str ''Steve'')]], [])"
    by (simp add: seqParser_def P_map_def textParser_def P_string_def stringParser_def
        stringLiteralParser_def re_stringLiteral_def mkVariable_def substring_def isString_def)
  have lit: "P_map Str (textParser ''Seller: '') ''Seller: x'' = Some (Str ''Seller: '', ''x'')"
    by (simp add: P_map_def textParser_def P_string_def)
  show ?thesis
    using run lit
      seqParser_drops_text [of "\<lambda>a s. None" "\<lparr>contract = False\<rparr>" "''Seller: ''" "''Seller: x''"
        "Str ''Seller: ''" "''x''"
        "[P_map Str (textParser ''Seller: ''), stringParser (Variable ''seller'' ''String'' [])]"
        "[Obj [(''name'', Str ''seller''), (''type'', Str ''String''), (''value'', Str ''Steve'')]]"]
    by (simp add: isString_def)
qed

section \<open>The visitor: marks and children\<close>

lemma applyMarks_Obj: "\<exists>ps'. applyMarks (Obj props) ps = Obj ps'"
  by (simp add: applyMarks_def Let_def)

lemma handleFormattedText_Obj: "\<exists>ps'. handleFormattedText n ps = Obj ps'"
  unfolding handleFormattedText_def by (rule applyMarks_Obj)

lemma visit_unhandled:
  "t \<notin> set handledTypes \<Longrightarrow> visit (Node t f ns) ps = Inl (Error (''Unhandled type '' @ t))"
  by (simp add: visit.simps handledTypes_def)

lemma handledTypes_cases:
  assumes "t \<in> set handledTypes"
  shows "t = ''Emph'' \<or> t = ''Strong'' \<or> t = ''BlockQuote'' \<or> t = ''Item'' \<or> t = ''Clause'' \<or> t = ''Link''
     \<or> t = ''Image'' \<or> t = ''Paragraph'' \<or> t = ''EnumVariable'' \<or> t = ''FormattedVariable''
     \<or> t = ''Formula'' \<or> t = ''Variable'' \<or> t = ''Conditional'' \<or> t = ''HtmlInline''
     \<or> t = ''HtmlBlock'' \<or> t = ''CodeBlock'' \<or> t = ''Code'' \<or> t = ''Text'' \<or> t = ''Heading''
     \<or> t = ''ThematicBreak'' \<or> t = ''Linebreak'' \<or> t = ''Softbreak'' \<or> t = ''ListBlock''
     \<or> t = ''List'' \<or> t = ''Document''"
  using assms by (simp add: handledTypes_def)

lemma visit_result_Obj:
  assumes "visit (Node t f ns) ps = Inr q"
  shows "\<exists>props. result q = Obj props"
proof (cases "t \<in> set handledTypes")
  case False
  then show ?thesis using assms by (simp add: visit_unhandled)
next
  case True
  then show ?thesis
    using assms handleFormattedText_Obj [of "Node t f ns" ps]
    apply -
    apply (drule handledTypes_cases)
    apply (elim disjE)
    apply (auto simp add: visit.simps split: sum.splits list.splits option.splits if_splits)
    done
qed

lemma processChildren_nth:
  "processChildren ns ps = Inr outs \<Longrightarrow>
     length outs = length ns \<and>
     (\<forall>j<length ns. \<exists>q. visit (ns ! j) (childCopy ps) = Inr q \<and> outs ! j = result q)"
proof (induction ns arbitrary: outs)
  case Nil
  then show ?case by simp
next
  case (Cons n ns)
  from Cons.prems obtain q rest where
    q: "visit n (childCopy ps) = Inr q" and
    rest: "processChildren ns ps = Inr rest" and
    outs: "outs = (case result q of Arr xs \<Rightarrow> xs | r \<Rightarrow> [r]) @ rest"
    by (auto simp: childCopy_def split: sum.splits)
  obtain t f cs where n: "n = Node t f cs" by (cases n)
  from q n obtain props where "result q = Obj props"
    using visit_result_Obj by blast
  with outs have o: "outs = result q # rest" by simp
  from Cons.IH [OF rest] have
    len: "length rest = length ns" and
    ih: "\<forall>j<length ns. \<exists>q. visit (ns ! j) (childCopy ps) = Inr q \<and> rest ! j = result q"
    by auto
  show ?case
  proof (intro conjI allI impI)
    show "length outs = length (n # ns)" using o len by simp
  next
    fix j assume "j < length (n # ns)"
    then show "\<exists>q. visit ((n # ns) ! j) (childCopy ps) = Inr q \<and> outs ! j = result q"
      using q o ih by (cases j) auto
  qed
qed

lemma visit_Text:
  "visit (Node ''Text'' f cs) q = Inr (q\<lparr>result := handleFormattedText (Node ''Text'' f cs) q\<rparr>)"
  by (simp add: visit.simps)

lemma handleFormattedText_childCopy:
  "handleFormattedText n (childCopy ps) = handleFormattedText n ps"
  by (simp add: handleFormattedText_def applyMarks_def childCopy_def)

lemma handleFormattedText_italics:
  "\<not> emph ps \<Longrightarrow> getProp (handleFormattedText n ps) ''italics'' = Undefined"
  by (simp add: handleFormattedText_def applyMarks_def Let_def)

lemma handleFormattedText_bold:
  "\<not> strong ps \<Longrightarrow> getProp (handleFormattedText n ps) ''bold'' = Undefined"
  by (simp add: handleFormattedText_def applyMarks_def Let_def)

text \<open>
  C6. When the children of a node are processed and an Emph or Strong node stands before
  a Text node among them, the output of the Text node is built from the marks of the
  parent's context alone: with \<open>emph\<close> unset there it has no \<open>italics\<close> property,
  with \<open>strong\<close> unset no \<open>bold\<close> property, although the Emph or Strong sibling set
  the flag for its own children.
\<close>

theorem marks_do_not_leak:
  assumes "processChildren ns ps = Inr outs"
    and "i < j" and "j < length ns"
    and "getType (ns ! i) = ''Emph'' \<or> getType (ns ! i) = ''Strong''"
    and "getType (ns ! j) = ''Text''"
  shows "outs ! j = handleFormattedText (ns ! j) ps
       \<and> (\<not> emph ps \<longrightarrow> getProp (outs ! j) ''italics'' = Undefined)
       \<and> (\<not> strong ps \<longrightarrow> getProp (outs ! j) ''bold'' = Undefined)"
proof -
  from processChildren_nth [OF assms(1)] assms(3) obtain q where
    q: "visit (ns ! j) (childCopy ps) = Inr q" and o: "outs ! j = result q"
    by blast
  obtain t f cs where n: "ns ! j = Node t f cs" by (cases "ns ! j")
  with assms(5) have "t = ''Text''" by simp
  with q n have "result q = handleFormattedText (ns ! j) (childCopy ps)"
    by (auto simp add: visit_Text)
  with o have "outs ! j = handleFormattedText (ns ! j) ps"
    by (simp add: handleFormattedText_childCopy)
  then show ?thesis
    by (simp add: handleFormattedText_italics handleFormattedText_bold)
qed

theorem marks_do_not_leak_witness:
  "processChildren [Node ''Emph'' noAttrs [Node ''Text'' (noAttrs\<lparr>text := Some ''a''\<rparr>) []],
                    Node ''Text'' (noAttrs\<lparr>text := Some ''b''\<rparr>) []]
      \<lparr>strong = False, emph = False, code = False, result = Undefined\<rparr>
    = Inr [Obj [(''style'', Str ''Emph''),
                (''text'', Arr [Obj [(''text'', Str ''a''), (''style'', Str ''Emph''), (''italics'', Bool True)]]),
                (''italics'', Bool True)],
           Obj [(''text'', Str ''b'')]]
  \<and> getProp (Obj [(''text'', Str ''b'')]) ''italics'' = Undefined"
proof -
  have run: "processChildren [Node ''Emph'' noAttrs [Node ''Text'' (noAttrs\<lparr>text := Some ''a''\<rparr>) []],
                    Node ''Text'' (noAttrs\<lparr>text := Some ''b''\<rparr>) []]
      \<lparr>strong = False, emph = False, code = False, result = Undefined\<rparr>
    = Inr [Obj [(''style'', Str ''Emph''),
                (''text'', Arr [Obj [(''text'', Str ''a''), (''style'', Str ''Emph''), (''italics'', Bool True)]]),
                (''italics'', Bool True)],
           Obj [(''text'', Str ''b'')]]"
    by (simp add: visit.simps handleFormattedText_def applyMarks_def noAttrs_def optStr_def)
  show ?thesis
  proof (intro conjI)
    show "processChildren [Node ''Emph'' noAttrs [Node ''Text'' (noAttrs\<lparr>text := Some ''a''\<rparr>) []],
                    Node ''Text'' (noAttrs\<lparr>text := Some ''b''\<rparr>) []]
      \<lparr>strong = False, emph = False, code = False, result = Undefined\<rparr>
    = Inr [Obj [(''style'', Str ''Emph''),
                (''text'', Arr [Obj [(''text'', Str ''a''), (''style'', Str ''Emph''), (''italics'', Bool True)]]),
                (''italics'', Bool True)],
           Obj [(''text'', Str ''b'')]]"
      by (rule run)
    show "getProp (Obj [(''text'', Str ''b'')]) ''italics'' = Undefined"
      using marks_do_not_leak [OF run, of 0 1, THEN conjunct2, THEN conjunct1] by simp
  qed
qed

section \<open>The visitor: element types without a case\<close>

lemma visit_recursing_fail:
  assumes "t \<in> set recursingTypes" and "processChildren ns (childParameters t ps) = Inl e"
  shows "visit (Node t f ns) ps = Inl e"
proof -
  from assms(1) have "t = ''Emph'' \<or> t = ''Strong'' \<or> t = ''BlockQuote'' \<or> t = ''Item'' \<or> t = ''Clause''
      \<or> t = ''Paragraph'' \<or> t = ''Heading'' \<or> t = ''ListBlock'' \<or> t = ''List'' \<or> t = ''Document''"
    by (simp add: recursingTypes_def)
  then show ?thesis
    using assms(2)
    by (elim disjE; hypsubst) (simp_all add: visit.simps childParameters_def)
qed

lemma processChildren_fail:
  assumes "c \<in> set ns" and "\<And>q. \<exists>e. visit c q = Inl e"
  shows "\<exists>e. processChildren ns ps = Inl e"
  using assms(1)
proof (induction ns)
  case Nil
  then show ?case by simp
next
  case (Cons n ns)
  show ?case
  proof (cases "n = c")
    case True
    then show ?thesis
      using assms(2) [of "childCopy ps"]
      by (auto simp: childCopy_def)
  next
    case False
    with Cons have "\<exists>e. processChildren ns ps = Inl e" by simp
    then show ?thesis
      by (auto split: sum.splits)
  qed
qed

lemma reachesUnhandled_fails: "reachesUnhandled n \<Longrightarrow> \<exists>e. visit n ps = Inl e"
proof (induction n arbitrary: ps)
  case (Node t f ns)
  show ?case
  proof (cases "t \<in> set handledTypes")
    case False
    then show ?thesis by (simp add: visit_unhandled)
  next
    case True
    with Node.prems obtain c where
      rec: "t \<in> set recursingTypes" and c: "c \<in> set ns" and r: "reachesUnhandled c"
      by auto
    have "\<And>q. \<exists>e. visit c q = Inl e"
      using Node.IH [OF c r] .
    from processChildren_fail [OF c this]
    obtain e where "processChildren ns (childParameters t ps) = Inl e" by blast
    from visit_recursing_fail [OF rec this] show ?thesis by blast
  qed
qed

lemma processChildren_Error:
  assumes "processChildren ns ps = Inl (Error m)"
  shows "\<exists>c\<in>set ns. \<exists>q. visit c q = Inl (Error m)"
  using assms
proof (induction ns)
  case Nil
  then show ?case by simp
next
  case (Cons n ns)
  then show ?case
    by (auto split: sum.splits)
qed

lemma visit_Error_children:
  assumes "visit (Node t f ns) ps = Inl (Error m)" and "t \<in> set handledTypes"
  shows "\<exists>q. processChildren ns q = Inl (Error m)"
  using assms(2) assms(1)
  apply -
  apply (drule handledTypes_cases)
  apply (elim disjE)
  apply (auto simp add: visit.simps split: sum.splits list.splits option.splits if_splits)
  done

lemma visit_Error_unhandled:
  "visit n ps = Inl (Error m) \<Longrightarrow> \<exists>t. t \<notin> set handledTypes \<and> m = ''Unhandled type '' @ t"
proof (induction n arbitrary: ps)
  case (Node t f ns)
  show ?case
  proof (cases "t \<in> set handledTypes")
    case False
    with Node.prems show ?thesis by (auto simp: visit_unhandled)
  next
    case True
    from visit_Error_children [OF Node.prems True]
    obtain q where "processChildren ns q = Inl (Error m)" by blast
    from processChildren_Error [OF this]
    obtain c q' where "c \<in> set ns" and "visit c q' = Inl (Error m)" by blast
    then show ?thesis using Node.IH by blast
  qed
qed

text \<open>
  C7 (as amended). When the traversal reaches a node whose element type has no case in
  the switch, the whole call fails and yields no output: it throws the error
  \<open>Unhandled type\<close> of an element type without a case, unless a node visited on the way
  throws a TypeError. A visited node without a case fails with the error naming it.
\<close>

theorem unhandled_type_aborts:
  assumes "reachesUnhandled n"
  shows "((\<exists>t. t \<notin> set handledTypes \<and> visit n ps = Inl (Error (''Unhandled type '' @ t)))
           \<or> (\<exists>m. visit n ps = Inl (TypeError m)))
       \<and> (getType n \<notin> set handledTypes \<longrightarrow> visit n ps = Inl (Error (''Unhandled type '' @ getType n)))"
proof -
  from reachesUnhandled_fails [OF assms] obtain e where e: "visit n ps = Inl e" by blast
  have 1: "(\<exists>t. t \<notin> set handledTypes \<and> visit n ps = Inl (Error (''Unhandled type '' @ t)))
           \<or> (\<exists>m. visit n ps = Inl (TypeError m))"
  proof (cases e)
    case (Error m)
    with e visit_Error_unhandled [of n ps m] show ?thesis by auto
  next
    case (TypeError m)
    with e show ?thesis by auto
  qed
  have 2: "getType n \<notin> set handledTypes \<longrightarrow> visit n ps = Inl (Error (''Unhandled type '' @ getType n))"
    by (cases n) (simp add: visit_unhandled)
  from 1 2 show ?thesis by blast
qed

theorem unhandled_type_aborts_witness:
  "reachesUnhandled (Node ''Document'' noAttrs
      [Node ''Paragraph'' noAttrs [Node ''Text'' (noAttrs\<lparr>text := Some ''a''\<rparr>) [], Node ''Foo'' noAttrs []]])
 \<and> visit (Node ''Document'' noAttrs
      [Node ''Paragraph'' noAttrs [Node ''Text'' (noAttrs\<lparr>text := Some ''a''\<rparr>) [], Node ''Foo'' noAttrs []]])
      \<lparr>strong = False, emph = False, code = False, result = Undefined\<rparr>
    = Inl (Error ''Unhandled type Foo'')"
proof -
  have r: "reachesUnhandled (Node ''Document'' noAttrs
      [Node ''Paragraph'' noAttrs [Node ''Text'' (noAttrs\<lparr>text := Some ''a''\<rparr>) [], Node ''Foo'' noAttrs []]])"
    by (simp add: handledTypes_def recursingTypes_def)
  have v: "visit (Node ''Document'' noAttrs
      [Node ''Paragraph'' noAttrs [Node ''Text'' (noAttrs\<lparr>text := Some ''a''\<rparr>) [], Node ''Foo'' noAttrs []]])
      \<lparr>strong = False, emph = False, code = False, result = Undefined\<rparr>
    = Inl (Error ''Unhandled type Foo'')"
    using unhandled_type_aborts [OF r, of "\<lparr>strong = False, emph = False, code = False, result = Undefined\<rparr>"]
    by (simp add: visit.simps)
  from r v show ?thesis by blast
qed

text \<open>
  A node without a case below a Link is never visited: the document is transformed and
  the output is returned.
\<close>

theorem unvisited_unhandled_counterexample:
  "visit (Node ''Document'' noAttrs [Node ''Paragraph'' noAttrs [Node ''Link'' noAttrs [Node ''Foo'' noAttrs []]]])
      \<lparr>strong = False, emph = False, code = False, result = Undefined\<rparr>
    = Inr \<lparr>strong = False, emph = False, code = False,
        result = Obj [(''style'', Str ''Document''),
               (''content'',
                Arr [Obj [(''style'', Str ''Paragraph''),
                          (''text'', Arr [Obj [(''style'', Str ''Link''), (''text'', Undefined), (''link'', Undefined)]]),
                          (''margin'', Arr [Num 0, Num 5])]])]\<rparr>"
  by (simp add: visit.simps noAttrs_def optStr_def)

section \<open>Clause and contract blocks\<close>

subsection \<open>The markers of a wrapped clause\<close>












subsection \<open>Compiled parsers consume a prefix\<close>




















subsection \<open>The value bound by a clause\<close>










end
